theory Spec2Isabelle
  imports Complex_Main
begin

section \<open>The savings challenge of balance-bloom: data model\<close>

text \<open>
  The development embeds the challenge ledger of \<^verbatim>\<open>src/pages/Challenge.tsx\<close>, the
  store schema of the SQL migration (tables \<^verbatim>\<open>challenge_40k\<close> and
  \<^verbatim>\<open>challenge_deposits\<close>) and the progress read of the Dashboard page.

  JavaScript numbers that hold counts, indices and deposit values are integers here
  (\<^typ>\<open>int\<close>); a target amount (column \<^verbatim>\<open>DECIMAL(12,2)\<close>) and a percentage are
  exact rationals (\<^typ>\<open>rat\<close>), so the rounding of IEEE doubles is not part of the model.
  Identifiers (UUIDs, and the page's temporary ids) and timestamps are strings.
\<close>

type_synonym ident = string
type_synonym timestamp = string

text \<open>The column check \<^verbatim>\<open>status IN ('pending', 'completed', 'skipped')\<close>.\<close>

datatype status = pending | completed | skipped

text \<open>
  The object literal built by \<^verbatim>\<open>depositValues.map\<close> in \<^verbatim>\<open>createChallenge\<close>; the page's
  \<^verbatim>\<open>Deposit\<close> is that object spread with an \<^verbatim>\<open>id\<close> (field \<open>id'\<close>: the name
  \<open>id\<close> is the identity function of HOL); a row of \<^verbatim>\<open>challenge_deposits\<close> has the
  column \<^verbatim>\<open>completed_at\<close> besides (\<^verbatim>\<open>created_at\<close> is never read and is left out).
\<close>

record deposit_payload =
  challenge_id :: ident
  deposit_value :: int
  sequence_order :: int
  status :: status

record Deposit = deposit_payload +
  id' :: ident

record challenge_deposits_row = Deposit +
  completed_at :: "timestamp option"

section \<open>The deposit sequence of createChallenge\<close>

text \<open>\<^verbatim>\<open>for (let i = 1; i <= 200; i++) depositValues.push(i)\<close>\<close>

function push_ascending :: "int \<Rightarrow> int list \<Rightarrow> int list" where
  "push_ascending i depositValues =
     (if i \<le> 200 then push_ascending (i + 1) (depositValues @ [i]) else depositValues)"
  by pat_completeness auto
termination
  by (relation "measure (\<lambda>(i, depositValues). nat (201 - i))") auto

declare push_ascending.simps [simp del]

text \<open>\<^verbatim>\<open>for (let i = 200; i >= 1; i--) depositValues.push(i)\<close>\<close>

function push_descending :: "int \<Rightarrow> int list \<Rightarrow> int list" where
  "push_descending i depositValues =
     (if i \<ge> 1 then push_descending (i - 1) (depositValues @ [i]) else depositValues)"
  by pat_completeness auto
termination
  by (relation "measure (\<lambda>(i, depositValues). nat i)") auto

declare push_descending.simps [simp del]

text \<open>\<^verbatim>\<open>Array.prototype.indexOf\<close>: the first index holding the value, \<open>-1\<close> when absent.\<close>

fun indexOf :: "int list \<Rightarrow> int \<Rightarrow> int" where
  "indexOf [] v = - 1"
| "indexOf (x # xs) v =
     (if x = v then 0 else (let r = indexOf xs v in if r < 0 then - 1 else r + 1))"

text \<open>
  \<^verbatim>\<open>Array.prototype.splice(start, deleteCount)\<close> with no inserted items: a negative start
  counts from the end, and the start is clamped to the array.
\<close>

definition splice :: "'a list \<Rightarrow> int \<Rightarrow> nat \<Rightarrow> 'a list" where
  "splice xs start deleteCount =
     (let len = int (length xs);
          s = (if start < 0 then max (len + start) 0 else min start len)
      in take (nat s) xs @ drop (nat s + deleteCount) xs)"

text \<open>Lines 98 to 111 of \<^verbatim>\<open>Challenge.tsx\<close>: the two runs, then the adjustment for 40000.\<close>

definition depositValues :: "rat \<Rightarrow> int list" where
  "depositValues target =
     (let values = push_descending 200 (push_ascending 1 [])
      in if target = 40000 then splice values (indexOf values 200) 1 else values)"

text \<open>Lines 113 to 118: \<^verbatim>\<open>depositValues.map((value, index) => ...)\<close>.\<close>

definition depositsToInsert :: "ident \<Rightarrow> rat \<Rightarrow> deposit_payload list" where
  "depositsToInsert cid target =
     map (\<lambda>(index, value).
            \<lparr>challenge_id = cid, deposit_value = value,
             sequence_order = int index + 1, status = pending\<rparr>)
         (enumerate 0 (depositValues target))"

section \<open>The store: the two challenge tables and the calls the pages make\<close>

text \<open>
  A row of \<^verbatim>\<open>challenge_40k\<close> (column \<^verbatim>\<open>id\<close> is \<open>row_id\<close> here; \<^verbatim>\<open>created_at\<close> is
  left out). The table declares \<^verbatim>\<open>id\<close> a primary key and \<^verbatim>\<open>UNIQUE(user_id)\<close>.
\<close>

record challenge_40k_row =
  row_id :: ident
  user_id :: ident
  target_value :: rat
  is_active :: bool

record store =
  challenge_40k :: "challenge_40k_row list"
  challenge_deposits :: "challenge_deposits_row list"

text \<open>
  What a call to the store can answer besides its data. Every call takes a \<open>fault\<close>: an
  error decided outside the tables (the network, the session), \<open>None\<close> when there is none.
  The row level security policies let a session reach the rows of its own user only; the
  pages address no other rows, and a refusal is one of the faults.
\<close>

datatype db_error = unique_violation | foreign_key_violation | request_failed

text \<open>
  \<^verbatim>\<open>from('challenge_40k').insert({ user_id, target_value }).select().single()\<close>; the store
  generates the id (\<open>new_id\<close>) and the default \<^verbatim>\<open>is_active = true\<close>.
\<close>

definition insert_challenge_40k ::
  "db_error option \<Rightarrow> ident \<Rightarrow> ident \<Rightarrow> rat \<Rightarrow> store \<Rightarrow> db_error + (challenge_40k_row \<times> store)"
where
  "insert_challenge_40k fault new_id uid target db =
     (case fault of
        Some e \<Rightarrow> Inl e
      | None \<Rightarrow>
          if uid \<in> set (map user_id (challenge_40k db))
             \<or> new_id \<in> set (map row_id (challenge_40k db))
          then Inl unique_violation
          else (let row = \<lparr>row_id = new_id, user_id = uid, target_value = target,
                            is_active = True\<rparr>
                in Inr (row, db\<lparr>challenge_40k := challenge_40k db @ [row]\<rparr>)))"

text \<open>
  \<^verbatim>\<open>from('challenge_deposits').insert(depositsToInsert)\<close>: one statement for all rows. The
  store generates the ids (\<open>new_ids k\<close> for the \<open>k\<close>-th row) and leaves
  \<^verbatim>\<open>completed_at\<close>, which has no default, null.
\<close>

definition inserted_rows :: "(nat \<Rightarrow> ident) \<Rightarrow> deposit_payload list \<Rightarrow> challenge_deposits_row list"
where
  "inserted_rows new_ids payloads =
     map (\<lambda>(k, p).
            \<lparr>challenge_id = challenge_id p, deposit_value = deposit_value p,
             sequence_order = sequence_order p, status = status p,
             id' = new_ids k, completed_at = None\<rparr>)
         (enumerate 0 payloads)"

definition insert_challenge_deposits ::
  "db_error option \<Rightarrow> (nat \<Rightarrow> ident) \<Rightarrow> deposit_payload list \<Rightarrow> store \<Rightarrow> db_error + store"
where
  "insert_challenge_deposits fault new_ids payloads db =
     (case fault of
        Some e \<Rightarrow> Inl e
      | None \<Rightarrow>
          (let rows = inserted_rows new_ids payloads
           in if distinct (map id' rows)
                 \<and> set (map id' rows) \<inter> set (map id' (challenge_deposits db)) = {}
              then if set (map challenge_id payloads) \<subseteq> set (map row_id (challenge_40k db))
                   then Inr (db\<lparr>challenge_deposits := challenge_deposits db @ rows\<rparr>)
                   else Inl foreign_key_violation
              else Inl unique_violation))"

text \<open>
  \<^verbatim>\<open>from('challenge_deposits').update({ status, completed_at }).eq('id', depositId)\<close>
\<close>

definition update_challenge_deposits ::
  "db_error option \<Rightarrow> ident \<Rightarrow> status \<Rightarrow> timestamp option \<Rightarrow> store \<Rightarrow> db_error + store"
where
  "update_challenge_deposits fault depositId st ts db =
     (case fault of
        Some e \<Rightarrow> Inl e
      | None \<Rightarrow>
          Inr (db\<lparr>challenge_deposits :=
                    map (\<lambda>r. if id' r = depositId then r\<lparr>status := st, completed_at := ts\<rparr>
                              else r)
                        (challenge_deposits db)\<rparr>))"

text \<open>
  \<^verbatim>\<open>from('challenge_40k').select(...).eq('user_id', uid).maybeSingle()\<close>: the \<^verbatim>\<open>data\<close> of
  the answer, null unless exactly one row matches and the call succeeds.
\<close>

definition select_challenge_40k :: "db_error option \<Rightarrow> ident \<Rightarrow> store \<Rightarrow> challenge_40k_row option"
where
  "select_challenge_40k fault uid db =
     (case fault of
        Some e \<Rightarrow> None
      | None \<Rightarrow>
          (case filter (\<lambda>c. user_id c = uid) (challenge_40k db) of
             [c] \<Rightarrow> Some c
           | _ \<Rightarrow> None))"

text \<open>
  \<^verbatim>\<open>from('challenge_deposits').select('*').eq('challenge_id', cid).order('sequence_order',
  { ascending: true })\<close>
\<close>

definition select_challenge_deposits ::
  "db_error option \<Rightarrow> ident \<Rightarrow> store \<Rightarrow> challenge_deposits_row list option"
where
  "select_challenge_deposits fault cid db =
     (case fault of
        Some e \<Rightarrow> None
      | None \<Rightarrow>
          Some (sort_key sequence_order
                  (filter (\<lambda>r. challenge_id r = cid) (challenge_deposits db))))"

text \<open>
  The Dashboard's read:
  \<^verbatim>\<open>from('challenge_deposits').select('deposit_value').eq('challenge_id', cid).eq('status',
  'completed')\<close>
\<close>

definition select_completed_deposit_values ::
  "db_error option \<Rightarrow> ident \<Rightarrow> store \<Rightarrow> int list option"
where
  "select_completed_deposit_values fault cid db =
     (case fault of
        Some e \<Rightarrow> None
      | None \<Rightarrow>
          Some (map deposit_value
                  (filter (\<lambda>r. status r = completed)
                     (filter (\<lambda>r. challenge_id r = cid) (challenge_deposits db)))))"

section \<open>The Challenge page\<close>

text \<open>The state of the component (\<^verbatim>\<open>customTarget\<close> is never read).\<close>

record page =
  deposits :: "Deposit list"
  challengeId :: "ident option"
  targetValue :: rat
  loading :: bool
  setupDialogOpen :: bool

definition initial_page :: page where
  "initial_page =
     \<lparr>deposits = [], challengeId = None, targetValue = 40000, loading = True,
      setupDialogOpen = False\<rparr>"

text \<open>\<^verbatim>\<open>depositsData as Deposit[]\<close>: the page reads a row through the fields of \<^verbatim>\<open>Deposit\<close>.\<close>

definition as_Deposit :: "challenge_deposits_row \<Rightarrow> Deposit" where
  "as_Deposit r =
     \<lparr>challenge_id = challenge_id r, deposit_value = deposit_value r,
      sequence_order = sequence_order r, status = status r, id' = id' r\<rparr>"

definition fetchChallenge ::
  "db_error option \<Rightarrow> db_error option \<Rightarrow> ident \<Rightarrow> store \<Rightarrow> page \<Rightarrow> page"
where
  "fetchChallenge fault1 fault2 uid db pg =
     (let pg1 =
        (case select_challenge_40k fault1 uid db of
           Some challenge \<Rightarrow>
             (let pg' = pg\<lparr>challengeId := Some (row_id challenge),
                            targetValue := target_value challenge\<rparr>
              in case select_challenge_deposits fault2 (row_id challenge) db of
                   Some depositsData \<Rightarrow> pg'\<lparr>deposits := map as_Deposit depositsData\<rparr>
                 | None \<Rightarrow> pg')
         | None \<Rightarrow> pg\<lparr>setupDialogOpen := True\<rparr>)
      in pg1\<lparr>loading := False\<rparr>)"

text \<open>
  The text of a non-negative index inside the template \<^verbatim>\<open>`temp-${i}`\<close>: its decimal
  digits, the most significant first.
\<close>

definition digit :: "nat \<Rightarrow> char" where
  "digit k = ''0123456789'' ! k"

fun decimal :: "nat \<Rightarrow> string" where
  "decimal i = (if 10 \<le> i then decimal (i div 10) @ [digit (i mod 10)] else [digit i])"

declare decimal.simps [simp del]

text \<open>
  An operation of the page answers the error its \<^verbatim>\<open>catch\<close> block received (\<open>None\<close> when
  that block did not run), the store and the page.
\<close>

type_synonym outcome = "db_error option \<times> store \<times> page"

abbreviation caught :: "outcome \<Rightarrow> db_error option" where
  "caught r \<equiv> fst r"

abbreviation store_of :: "outcome \<Rightarrow> store" where
  "store_of r \<equiv> fst (snd r)"

abbreviation page_of :: "outcome \<Rightarrow> page" where
  "page_of r \<equiv> snd (snd r)"

text \<open>
  \<^verbatim>\<open>createChallenge\<close>, lines 81 to 140, for the signed-in user \<open>uid\<close>. The refetch that
  ends it runs after the rest (\<open>fault3\<close> and \<open>fault4\<close> are the faults of its two reads).
\<close>

definition createChallenge ::
  "db_error option \<Rightarrow> ident \<Rightarrow> db_error option \<Rightarrow> (nat \<Rightarrow> ident) \<Rightarrow>
   db_error option \<Rightarrow> db_error option \<Rightarrow> ident \<Rightarrow> rat \<Rightarrow> store \<Rightarrow> page \<Rightarrow> outcome"
where
  "createChallenge fault1 new_id fault2 new_ids fault3 fault4 uid target db pg =
     (let pg0 = pg\<lparr>loading := True\<rparr>
      in case insert_challenge_40k fault1 new_id uid target db of
           Inl challengeError \<Rightarrow> (Some challengeError, db, pg0\<lparr>loading := False\<rparr>)
         | Inr (challenge, db1) \<Rightarrow>
             (let toInsert = depositsToInsert (row_id challenge) target
              in case insert_challenge_deposits fault2 new_ids toInsert db1 of
                   Inl depositsError \<Rightarrow> (Some depositsError, db1, pg0\<lparr>loading := False\<rparr>)
                 | Inr db2 \<Rightarrow>
                     (let pg1 = pg0\<lparr>challengeId := Some (row_id challenge),
                                     targetValue := target,
                                     deposits :=
                                       map (\<lambda>(i, d).
                                              \<lparr>challenge_id = challenge_id d,
                                               deposit_value = deposit_value d,
                                               sequence_order = sequence_order d,
                                               status = status d,
                                               id' = ''temp-'' @ decimal i\<rparr>)
                                           (enumerate 0 toInsert),
                                     setupDialogOpen := False\<rparr>
                      in (None, db2,
                          fetchChallenge fault3 fault4 uid db2 (pg1\<lparr>loading := False\<rparr>)))))"

text \<open>
  \<^verbatim>\<open>updateDepositStatus\<close>, lines 142 to 164. Its TypeScript signature admits the statuses
  \<^verbatim>\<open>'completed'\<close> and \<^verbatim>\<open>'skipped'\<close>; \<open>now\<close> is \<^verbatim>\<open>new Date().toISOString()\<close>.
\<close>

definition updateDepositStatus ::
  "db_error option \<Rightarrow> timestamp \<Rightarrow> ident \<Rightarrow> status \<Rightarrow> store \<Rightarrow> page \<Rightarrow> outcome"
where
  "updateDepositStatus fault now depositId st db pg =
     (case update_challenge_deposits fault depositId st
             (if st = completed then Some now else None) db of
        Inl error \<Rightarrow> (Some error, db, pg)
      | Inr db' \<Rightarrow>
          (None, db',
           pg\<lparr>deposits := map (\<lambda>d. if id' d = depositId then d\<lparr>status := st\<rparr> else d)
                               (deposits pg)\<rparr>))"

text \<open>
  The \<^verbatim>\<open>onClick\<close> of a deposit's button, lines 253 to 268. The reset branch does not look
  at the answer of the store and has no \<^verbatim>\<open>catch\<close>.
\<close>

definition onClick ::
  "db_error option \<Rightarrow> timestamp \<Rightarrow> Deposit \<Rightarrow> store \<Rightarrow> page \<Rightarrow> outcome"
where
  "onClick fault now deposit db pg =
     (if status deposit = pending then
        updateDepositStatus fault now (id' deposit) completed db pg
      else if status deposit = completed then
        updateDepositStatus fault now (id' deposit) skipped db pg
      else
        (let db' = (case update_challenge_deposits fault (id' deposit) pending None db of
                      Inl e \<Rightarrow> db
                    | Inr db1 \<Rightarrow> db1)
         in (None, db',
             pg\<lparr>deposits := map (\<lambda>d. if id' d = id' deposit then d\<lparr>status := pending\<rparr>
                                       else d)
                                 (deposits pg)\<rparr>)))"

text \<open>
  \<^verbatim>\<open>deposits.map((deposit) => <button onClick=...>)\<close>: the \<open>i\<close>-th button of the grid
  holds the \<open>i\<close>-th deposit of the page; there is no button beyond the list.
\<close>

definition click :: "db_error option \<Rightarrow> timestamp \<Rightarrow> nat \<Rightarrow> store \<Rightarrow> page \<Rightarrow> outcome" where
  "click fault now i db pg =
     (if i < length (deposits pg) then onClick fault now (deposits pg ! i) db pg
      else (None, db, pg))"

subsection \<open>The progress figures, lines 166 to 173, 222 and 233\<close>

definition completedValue :: "Deposit list \<Rightarrow> int" where
  "completedValue ds =
     foldl (\<lambda>sum d. sum + deposit_value d) 0 (filter (\<lambda>d. status d = completed) ds)"

definition remainingValue :: "rat \<Rightarrow> Deposit list \<Rightarrow> rat" where
  "remainingValue target ds = target - of_int (completedValue ds)"

definition progressPercent :: "rat \<Rightarrow> Deposit list \<Rightarrow> rat" where
  "progressPercent target ds =
     (if target > 0 then (of_int (completedValue ds) / target) * 100 else 0)"

definition completedCount :: "Deposit list \<Rightarrow> nat" where
  "completedCount ds = length (filter (\<lambda>d. status d = completed) ds)"

definition skippedCount :: "Deposit list \<Rightarrow> nat" where
  "skippedCount ds = length (filter (\<lambda>d. status d = skipped) ds)"

text \<open>The width of the bar, \<^verbatim>\<open>Math.min(progressPercent, 100)\<close>, is the only clamped figure.\<close>

definition progressBarWidth :: "rat \<Rightarrow> Deposit list \<Rightarrow> rat" where
  "progressBarWidth target ds = min (progressPercent target ds) 100"

text \<open>The banner of a finished challenge is shown when \<^verbatim>\<open>progressPercent >= 100\<close>.\<close>

definition challengeCompleteShown :: "rat \<Rightarrow> Deposit list \<Rightarrow> bool" where
  "challengeCompleteShown target ds = (progressPercent target ds \<ge> 100)"

section \<open>The Dashboard's challenge progress\<close>

record ChallengeProgress =
  current :: int
  target :: rat

definition initial_challengeProgress :: ChallengeProgress where
  "initial_challengeProgress = \<lparr>current = 0, target = 40000\<rparr>"

text \<open>
  \<^verbatim>\<open>deposits?.reduce((sum, d) => sum + Number(d.deposit_value), 0) || 0\<close>: a null answer
  and a falsy sum both give 0.
\<close>

definition dashboard_current :: "int list option \<Rightarrow> int" where
  "dashboard_current deposits' =
     (case deposits' of
        None \<Rightarrow> 0
      | Some ds \<Rightarrow> (let s = foldl (\<lambda>sum d. sum + d) 0 ds in if s = 0 then 0 else s))"

text \<open>The last part of the Dashboard's \<^verbatim>\<open>fetchData\<close>.\<close>

definition fetchData_challenge ::
  "db_error option \<Rightarrow> db_error option \<Rightarrow> ident \<Rightarrow> store \<Rightarrow> ChallengeProgress \<Rightarrow> ChallengeProgress"
where
  "fetchData_challenge fault1 fault2 uid db challengeProgress =
     (case select_challenge_40k fault1 uid db of
        Some challenge \<Rightarrow>
          \<lparr>current =
             dashboard_current (select_completed_deposit_values fault2 (row_id challenge) db),
           target = target_value challenge\<rparr>
      | None \<Rightarrow> challengeProgress)"

definition challengePercent :: "ChallengeProgress \<Rightarrow> rat" where
  "challengePercent challengeProgress =
     (if target challengeProgress > 0
      then (of_int (current challengeProgress) / target challengeProgress) * 100
      else 0)"

section \<open>Notions used to state the properties\<close>

text \<open>
  The primary cycle of the specification's transition table:
  pending to completed, completed to skipped, skipped to pending.
\<close>

definition cycle :: "status \<Rightarrow> status" where
  "cycle s = (case s of pending \<Rightarrow> completed | completed \<Rightarrow> skipped | skipped \<Rightarrow> pending)"

text \<open>
  Clicking the \<open>i\<close>-th button once for every timestamp of a list, each click answered by
  the store without a fault and rendered before the next one.
\<close>

fun click_times :: "timestamp list \<Rightarrow> nat \<Rightarrow> store \<Rightarrow> page \<Rightarrow> store \<times> page" where
  "click_times [] i db pg = (db, pg)"
| "click_times (now # nows) i db pg =
     (let r = click None now i db pg in click_times nows i (store_of r) (page_of r))"

text \<open>Every stored obligation has a completion time exactly when it is completed.\<close>

definition completed_at_inv :: "store \<Rightarrow> bool" where
  "completed_at_inv db =
     list_all (\<lambda>r. (completed_at r \<noteq> None) = (status r = completed)) (challenge_deposits db)"

text \<open>The generated obligations of a challenge, every one of them marked completed.\<close>

definition all_completed :: "rat \<Rightarrow> Deposit list" where
  "all_completed t =
     map (\<lambda>d. \<lparr>challenge_id = challenge_id d, deposit_value = deposit_value d,
               sequence_order = sequence_order d, status = completed, id' = ''x''\<rparr>)
         (depositsToInsert ''c1'' t)"

text \<open>
  A small store for concrete runs: the challenge of user \<open>u1\<close> with one completed, one
  pending and one skipped obligation, and the page that \<open>fetchChallenge\<close> shows for it.
\<close>

definition example_store :: store where
  "example_store =
     \<lparr>challenge_40k =
        [\<lparr>row_id = ''c1'', user_id = ''u1'', target_value = 40000, is_active = True\<rparr>],
      challenge_deposits =
        [\<lparr>challenge_id = ''c1'', deposit_value = 1, sequence_order = 1, status = completed,
          id' = ''d1'', completed_at = Some ''2026-01-01T00:00:00.000Z''\<rparr>,
         \<lparr>challenge_id = ''c1'', deposit_value = 2, sequence_order = 2, status = pending,
          id' = ''d2'', completed_at = None\<rparr>,
         \<lparr>challenge_id = ''c1'', deposit_value = 3, sequence_order = 3, status = skipped,
          id' = ''d3'', completed_at = None\<rparr>]\<rparr>"

definition example_page :: page where
  "example_page =
     \<lparr>deposits =
        [\<lparr>challenge_id = ''c1'', deposit_value = 1, sequence_order = 1, status = completed,
          id' = ''d1''\<rparr>,
         \<lparr>challenge_id = ''c1'', deposit_value = 2, sequence_order = 2, status = pending,
          id' = ''d2''\<rparr>,
         \<lparr>challenge_id = ''c1'', deposit_value = 3, sequence_order = 3, status = skipped,
          id' = ''d3''\<rparr>],
      challengeId = Some ''c1'', targetValue = 40000, loading = False,
      setupDialogOpen = False\<rparr>"

section \<open>Properties of the deposit sequence\<close>

lemma push_ascending_upto: "push_ascending i xs = xs @ [i..200]"
proof (induction i xs rule: push_ascending.induct)
  case (1 i xs)
  show ?case
  proof (cases "i \<le> 200")
    case True
    then show ?thesis
      using "1.IH" by (subst push_ascending.simps) (simp add: upto_rec1 [of i 200])
  next
    case False
    then show ?thesis by (subst push_ascending.simps) simp
  qed
qed

lemma push_descending_upto: "push_descending i xs = xs @ rev [1..i]"
proof (induction i xs rule: push_descending.induct)
  case (1 i xs)
  show ?case
  proof (cases "1 \<le> i")
    case True
    then show ?thesis
      using "1.IH" by (subst push_descending.simps) (simp add: upto_rec2 [of 1 i])
  next
    case False
    then show ?thesis by (subst push_descending.simps) simp
  qed
qed

lemma raw_sequence: "push_descending 200 (push_ascending 1 []) = [1..200] @ rev [1..200]"
  by (simp only: push_ascending_upto push_descending_upto append_Nil)

lemma indexOf_first: "v \<notin> set xs \<Longrightarrow> indexOf (xs @ v # ys) v = int (length xs)"
  by (induction xs) (auto simp: Let_def)

lemma indexOf_raw: "indexOf ([1..200] @ rev [1..200]) 200 = 199"
proof -
  have last200: "[1..200::int] = [1..199] @ [200]"
    using upto_rec2 [of 1 "200::int"] by simp
  have "indexOf ([1..199] @ 200 # rev [1..200]) 200 = int (length [1..199::int])"
    by (rule indexOf_first) simp
  then show ?thesis by (simp add: last200 del: upto_rec_numeral)
qed

lemma depositValues_40200: "depositValues 40200 = [1..200] @ rev [1..200]"
  by (simp add: depositValues_def raw_sequence del: upto_rec_numeral)

lemma depositValues_40000: "depositValues 40000 = [1..199] @ rev [1..200]"
proof -
  have last200: "[1..200::int] = [1..199] @ [200]"
    using upto_rec2 [of 1 "200::int"] by simp
  have "splice ([1..199] @ 200 # rev [1..200]) 199 1 = [1..199] @ rev [1..200::int]"
    by (simp add: splice_def del: upto_rec_numeral)
  then show ?thesis
    using indexOf_raw by (simp add: depositValues_def raw_sequence last200 del: upto_rec_numeral)
qed

lemma sum_list_upto_1: "0 \<le> n \<Longrightarrow> 2 * sum_list [1..n] = n * (n + 1)"
proof (induction n rule: int_ge_induct)
  case base
  show ?case by simp
next
  case (step i)
  have "[1..i + 1] = [1..i] @ [i + 1]"
    using step.hyps upto_rec2 [of 1 "i + 1"] by simp
  then show ?case using step.IH by (simp add: algebra_simps)
qed

lemma count_list_upto: "count_list [i..j] v = (if i \<le> v \<and> v \<le> j then 1 else 0)"
proof (induction i j rule: upto.induct)
  case (1 i j)
  show ?case
  proof (cases "i \<le> j")
    case True
    then show ?thesis using "1.IH" by (simp add: upto_rec1 [of i j])
  next
    case False
    then show ?thesis by simp
  qed
qed

lemma sum_depositValues:
  "sum_list (depositValues 40000) = 40000" "sum_list (depositValues 40200) = 40200"
proof -
  have s200: "sum_list [1..200::int] = 20100"
    using sum_list_upto_1 [of 200] by simp
  have s199: "sum_list [1..199::int] = 19900"
    using sum_list_upto_1 [of 199] by simp
  show "sum_list (depositValues 40000) = 40000" "sum_list (depositValues 40200) = 40200"
    by (simp_all add: depositValues_40000 depositValues_40200 s200 s199 del: upto_rec_numeral)
qed

lemma depositsToInsert_values: "map deposit_value (depositsToInsert cid t) = depositValues t"
  by (simp add: depositsToInsert_def split_def o_def)

lemma depositsToInsert_orders:
  "map sequence_order (depositsToInsert cid t) =
   map (\<lambda>i. int i + 1) [0..<length (depositValues t)]"
  by (rule nth_equalityI) (simp_all add: depositsToInsert_def split_def nth_enumerate_eq)

lemma depositsToInsert_statuses:
  "map status (depositsToInsert cid t) = replicate (length (depositValues t)) pending"
  by (simp add: depositsToInsert_def split_def o_def map_replicate_const)

lemma depositValues_range:
  assumes "t = 40000 \<or> t = 40200"
  shows "v \<in> set (depositValues t) \<Longrightarrow> 1 \<le> v \<and> v \<le> 200"
  using assms by (auto simp: depositValues_40000 depositValues_40200 simp del: upto_rec_numeral)

text \<open>
  C1. For the two supported targets, 40000 and 40200, the sequence of deposit values that
  \<^verbatim>\<open>createChallenge\<close> builds (1 up to 200, then 200 down to 1, adjusted for 40000) sums
  to the target; it has 399 elements for 40000 and 400 for 40200. The objects sent to the
  store carry exactly these values.
\<close>

theorem deposit_sequence_sum_length:
  "sum_list (depositValues 40000) = 40000 \<and> length (depositValues 40000) = 399 \<and>
   sum_list (depositValues 40200) = 40200 \<and> length (depositValues 40200) = 400 \<and>
   map deposit_value (depositsToInsert cid 40000) = depositValues 40000 \<and>
   map deposit_value (depositsToInsert cid 40200) = depositValues 40200"
proof -
  have "length (depositValues 40000) = 399" "length (depositValues 40200) = 400"
    by (simp_all add: depositValues_40000 depositValues_40200 del: upto_rec_numeral)
  then show ?thesis
    by (simp add: sum_depositValues depositsToInsert_values)
qed

text \<open>
  C2. The sequence for 40200 holds every integer from 1 to 200 exactly twice and nothing
  else. The sequence for 40000 holds every integer from 1 to 199 exactly twice and 200
  exactly once: the first 200 met from the start, at index 199, the last element of the
  ascending run, is the one removed, so the sequence is 1 up to 199 followed by 200 down
  to 1. The \<^verbatim>\<open>sequence_order\<close> of every generated obligation is its position in the
  sequence counted from 1, its value is the element at that position, and its status is
  pending.
\<close>

theorem deposit_sequence_contents:
  "count_list (depositValues 40200) v = (if 1 \<le> v \<and> v \<le> 200 then 2 else 0) \<and>
   count_list (depositValues 40000) v =
     (if 1 \<le> v \<and> v < 200 then 2 else if v = 200 then 1 else 0) \<and>
   depositValues 40000 = [1..199] @ rev [1..200] \<and>
   indexOf (depositValues 40200) 200 = 199 \<and>
   depositValues 40000 = take 199 (depositValues 40200) @ drop 200 (depositValues 40200) \<and>
   map sequence_order (depositsToInsert cid t) =
     map (\<lambda>i. int i + 1) [0..<length (depositValues t)] \<and>
   map deposit_value (depositsToInsert cid t) = depositValues t \<and>
   map status (depositsToInsert cid t) = replicate (length (depositValues t)) pending"
proof -
  have last200: "[1..200::int] = [1..199] @ [200]"
    using upto_rec2 [of 1 "200::int"] by simp
  have c1: "count_list (depositValues 40200) v = (if 1 \<le> v \<and> v \<le> 200 then 2 else 0)"
    by (simp add: depositValues_40200 count_list_upto count_list_rev del: upto_rec_numeral)
  have c2: "count_list (depositValues 40000) v =
      (if 1 \<le> v \<and> v < 200 then 2 else if v = 200 then 1 else 0)"
    by (simp add: depositValues_40000 count_list_upto count_list_rev del: upto_rec_numeral)
  have c3: "indexOf (depositValues 40200) 200 = 199"
    by (simp only: depositValues_40200 indexOf_raw)
  have c4: "depositValues 40000 =
      take 199 (depositValues 40200) @ drop 200 (depositValues 40200)"
    by (simp add: depositValues_40200 depositValues_40000 last200 del: upto_rec_numeral)
  show ?thesis
    by (intro conjI)
      (fact c1 c2 c3 c4 depositValues_40000 depositsToInsert_orders depositsToInsert_values
        depositsToInsert_statuses)+
qed

theorem deposit_sequence_contents_witness:
  "count_list (depositValues 40200) 200 = 2 \<and> count_list (depositValues 40000) 200 = 1 \<and>
   count_list (depositValues 40000) 7 = 2"
proof -
  have "count_list (depositValues 40200) 200 = 2"
    using deposit_sequence_contents [of 200 "''c''" 40000, THEN conjunct1] by simp
  moreover have "count_list (depositValues 40000) 200 = 1"
    using deposit_sequence_contents [of 200 "''c''" 40000, THEN conjunct2, THEN conjunct1]
    by simp
  moreover have "count_list (depositValues 40000) 7 = 2"
    using deposit_sequence_contents [of 7 "''c''" 40000, THEN conjunct2, THEN conjunct1]
    by simp
  ultimately show ?thesis by simp
qed

section \<open>Properties of the progress figures\<close>

lemma foldl_add_sum_list:
  "foldl (\<lambda>sum d. sum + f d) a xs = a + sum_list (map f xs)" for a :: int
  by (induction xs arbitrary: a) simp_all

lemma completedValue_sum_list:
  "completedValue ds = sum_list (map deposit_value (filter (\<lambda>d. status d = completed) ds))"
  by (simp add: completedValue_def foldl_add_sum_list)

lemma completedValue_sum_if:
  "completedValue ds = (\<Sum>d\<leftarrow>ds. if status d = completed then deposit_value d else 0)"
  unfolding completedValue_sum_list by (induction ds) simp_all

text \<open>
  C4. For every list of obligations and every target: the accumulated amount is the sum of
  the values of the completed obligations; the remaining amount is the target minus the
  accumulated amount; the percentage is accumulated / target * 100 when the target is
  positive and 0 otherwise, with no clamping; the challenge is shown as complete exactly
  when the percentage is at least 100.
\<close>

theorem progress_figures:
  "completedValue ds = sum_list (map deposit_value (filter (\<lambda>d. status d = completed) ds)) \<and>
   remainingValue t ds = t - of_int (completedValue ds) \<and>
   progressPercent t ds = (if t > 0 then (of_int (completedValue ds) / t) * 100 else 0) \<and>
   challengeCompleteShown t ds = (progressPercent t ds \<ge> 100)"
  by (simp add: completedValue_sum_list remainingValue_def progressPercent_def
      challengeCompleteShown_def)

text \<open>A concrete run: a target of 100 with 150 completed gives 150 percent, not 100.\<close>

theorem progress_figures_witness:
  "completedValue
     [\<lparr>challenge_id = ''c'', deposit_value = 150, sequence_order = 1, status = completed,
       id' = ''a''\<rparr>,
      \<lparr>challenge_id = ''c'', deposit_value = 7, sequence_order = 2, status = skipped,
       id' = ''b''\<rparr>] = 150 \<and>
   remainingValue 100
     [\<lparr>challenge_id = ''c'', deposit_value = 150, sequence_order = 1, status = completed,
       id' = ''a''\<rparr>,
      \<lparr>challenge_id = ''c'', deposit_value = 7, sequence_order = 2, status = skipped,
       id' = ''b''\<rparr>] = - 50 \<and>
   progressPercent 100
     [\<lparr>challenge_id = ''c'', deposit_value = 150, sequence_order = 1, status = completed,
       id' = ''a''\<rparr>,
      \<lparr>challenge_id = ''c'', deposit_value = 7, sequence_order = 2, status = skipped,
       id' = ''b''\<rparr>] = 150 \<and>
   challengeCompleteShown 100
     [\<lparr>challenge_id = ''c'', deposit_value = 150, sequence_order = 1, status = completed,
       id' = ''a''\<rparr>,
      \<lparr>challenge_id = ''c'', deposit_value = 7, sequence_order = 2, status = skipped,
       id' = ''b''\<rparr>]"
  using progress_figures
    [of "[\<lparr>challenge_id = ''c'', deposit_value = 150, sequence_order = 1, status = completed,
          id' = ''a''\<rparr>,
         \<lparr>challenge_id = ''c'', deposit_value = 7, sequence_order = 2, status = skipped,
          id' = ''b''\<rparr>]" 100]
  by simp

lemma completedValue_le_total:
  assumes "\<And>d. d \<in> set ds \<Longrightarrow> 0 \<le> deposit_value d"
  shows "completedValue ds \<le> sum_list (map deposit_value ds)"
  unfolding completedValue_sum_if
  by (rule sum_list_mono) (use assms in auto)

text \<open>
  C9. For a supported target \<open>t\<close> and every list of obligations that carries the generated
  values of \<open>t\<close>, whatever their statuses: the accumulated amount is at most \<open>t\<close>, the
  remaining amount is not negative and the percentage is at most 100.
\<close>

theorem accumulated_never_exceeds_target:
  assumes "t = 40000 \<or> t = 40200" and "map deposit_value ds = depositValues t"
  shows "of_int (completedValue ds) \<le> t \<and> 0 \<le> remainingValue t ds \<and>
         progressPercent t ds \<le> 100"
proof -
  have nonneg: "0 \<le> deposit_value d" if "d \<in> set ds" for d
  proof -
    have "deposit_value d \<in> set (depositValues t)"
      using that assms(2) [symmetric] by simp
    then show ?thesis using depositValues_range [OF assms(1)] by force
  qed
  have "completedValue ds \<le> sum_list (depositValues t)"
    using completedValue_le_total [of ds] nonneg assms(2) by simp
  moreover have "(of_int (sum_list (depositValues t)) :: rat) = t"
    using assms(1) sum_depositValues by auto
  ultimately have le: "(of_int (completedValue ds) :: rat) \<le> t"
    by (metis of_int_le_iff)
  have pos: "0 < t" using assms(1) by auto
  have "progressPercent t ds \<le> 100"
    using le pos by (simp add: progressPercent_def field_simps)
  then show ?thesis using le by (simp add: remainingValue_def)
qed

theorem accumulated_never_exceeds_target_witness:
  "of_int (completedValue (all_completed 40000)) \<le> (40000 :: rat) \<and>
   0 \<le> remainingValue 40000 (all_completed 40000) \<and>
   progressPercent 40000 (all_completed 40000) \<le> 100"
proof -
  have "map deposit_value (all_completed 40000) = depositValues 40000"
    by (simp add: all_completed_def depositsToInsert_def o_def split_def)
  from accumulated_never_exceeds_target [OF _ this] show ?thesis by simp
qed

section \<open>The Dashboard and the Challenge page agree\<close>

lemma sum_list_map_insort_key:
  "sum_list (map f (insort_key k x xs)) = f x + sum_list (map f xs)" for f :: "'a \<Rightarrow> int"
  by (induction xs) simp_all

lemma sum_list_map_sort_key:
  "sum_list (map f (sort_key k xs)) = sum_list (map f xs)" for f :: "'a \<Rightarrow> int"
  by (induction xs) (simp_all add: sum_list_map_insort_key)

lemma dashboard_current_sum: "dashboard_current (Some vs) = sum_list vs"
  by (simp add: dashboard_current_def foldl_add_sum_list [of "\<lambda>d. d", simplified] Let_def)

lemma completedValue_as_Deposit:
  "completedValue (map as_Deposit rows) =
   sum_list (map deposit_value (filter (\<lambda>r. status r = completed) rows))"
  by (induction rows) (simp_all add: completedValue_sum_list as_Deposit_def)

lemma percent_same:
  "challengePercent \<lparr>current = completedValue ds, target = t\<rparr> = progressPercent t ds"
  by (simp add: challengePercent_def progressPercent_def)

lemma example_page_fetched:
  "fetchChallenge None None ''u1'' example_store initial_page = example_page"
  by (simp add: fetchChallenge_def select_challenge_40k_def select_challenge_deposits_def
      example_store_def example_page_def initial_page_def as_Deposit_def)

text \<open>
  C10. Both pages opened on the same store, for the same user, with every read answered:
  the Dashboard's \<^verbatim>\<open>current\<close> is the Challenge page's accumulated amount, the targets are
  the same and so are the percentages. The two computations also agree on every list of
  rows and every target taken by themselves: the Dashboard's sum over the values of the
  completed rows is the Challenge page's sum over the same rows, and the two percentage
  formulas are the same function of the sum and the target.
\<close>

theorem dashboard_agrees_with_challenge_page:
  "current (fetchData_challenge None None uid db initial_challengeProgress) =
     completedValue (deposits (fetchChallenge None None uid db initial_page)) \<and>
   target (fetchData_challenge None None uid db initial_challengeProgress) =
     targetValue (fetchChallenge None None uid db initial_page) \<and>
   challengePercent (fetchData_challenge None None uid db initial_challengeProgress) =
     progressPercent (targetValue (fetchChallenge None None uid db initial_page))
       (deposits (fetchChallenge None None uid db initial_page)) \<and>
   dashboard_current (Some (map deposit_value (filter (\<lambda>r. status r = completed) rows))) =
     completedValue (map as_Deposit rows) \<and>
   challengePercent \<lparr>current = completedValue ds, target = t\<rparr> = progressPercent t ds"
proof (cases "select_challenge_40k None uid db")
  case None
  then show ?thesis
    by (simp add: fetchData_challenge_def fetchChallenge_def initial_page_def
        initial_challengeProgress_def completedValue_def challengePercent_def
        progressPercent_def dashboard_current_sum
        completedValue_as_Deposit [unfolded completedValue_def])
next
  case (Some challenge)
  have cur: "dashboard_current (select_completed_deposit_values None (row_id challenge) db) =
        completedValue
          (map as_Deposit (the (select_challenge_deposits None (row_id challenge) db)))"
    by (simp add: select_completed_deposit_values_def select_challenge_deposits_def
        dashboard_current_sum completedValue_as_Deposit sum_list_map_sort_key filter_sort)
  show ?thesis
    using Some cur
    by (simp add: fetchData_challenge_def fetchChallenge_def select_challenge_deposits_def
        dashboard_current_sum completedValue_as_Deposit percent_same challengePercent_def
        progressPercent_def)
qed

theorem dashboard_agrees_with_challenge_page_witness:
  "current (fetchData_challenge None None ''u1'' example_store initial_challengeProgress) = 1 \<and>
   completedValue (deposits (fetchChallenge None None ''u1'' example_store initial_page)) = 1 \<and>
   challengePercent (fetchData_challenge None None ''u1'' example_store
     initial_challengeProgress) = 1 / 400"
proof -
  have "completedValue (deposits (fetchChallenge None None ''u1'' example_store initial_page)) = 1"
    by (simp add: example_page_fetched) (simp add: example_page_def completedValue_def)
  moreover have "targetValue (fetchChallenge None None ''u1'' example_store initial_page) = 40000"
    by (simp add: example_page_fetched) (simp add: example_page_def)
  ultimately show ?thesis
    using dashboard_agrees_with_challenge_page [of "''u1''" example_store "[]" "[]" 0]
    by (simp add: progressPercent_def)
qed

section \<open>Properties of the status transitions\<close>

lemma update_ok [simp]:
  "update_challenge_deposits None depositId st ts db =
   Inr (db\<lparr>challenge_deposits :=
             map (\<lambda>r. if id' r = depositId then r\<lparr>status := st, completed_at := ts\<rparr> else r)
                 (challenge_deposits db)\<rparr>)"
  by (simp add: update_challenge_deposits_def)

lemma update_fault [simp]:
  "update_challenge_deposits (Some e) depositId st ts db = Inl e"
  by (simp add: update_challenge_deposits_def)

lemma updateDepositStatus_fault [simp]:
  "updateDepositStatus (Some e) now depositId st db pg = (Some e, db, pg)"
  by (simp add: updateDepositStatus_def)

lemma updateDepositStatus_ok:
  "updateDepositStatus None now depositId st db pg =
   (None,
    db\<lparr>challenge_deposits :=
         map (\<lambda>r. if id' r = depositId
                   then r\<lparr>status := st,
                          completed_at := (if st = completed then Some now else None)\<rparr>
                   else r)
             (challenge_deposits db)\<rparr>,
    pg\<lparr>deposits := map (\<lambda>d. if id' d = depositId then d\<lparr>status := st\<rparr> else d)
                        (deposits pg)\<rparr>)"
  by (simp add: updateDepositStatus_def)

lemma onClick_ok:
  "onClick None now d db pg =
   (None,
    db\<lparr>challenge_deposits :=
         map (\<lambda>r. if id' r = id' d
                   then r\<lparr>status := cycle (status d),
                          completed_at :=
                            (if cycle (status d) = completed then Some now else None)\<rparr>
                   else r)
             (challenge_deposits db)\<rparr>,
    pg\<lparr>deposits := map (\<lambda>x. if id' x = id' d then x\<lparr>status := cycle (status d)\<rparr> else x)
                        (deposits pg)\<rparr>)"
  by (cases "status d") (simp_all add: onClick_def updateDepositStatus_ok cycle_def)

lemma onClick_fault:
  "onClick (Some e) now d db pg =
   (if status d = skipped
    then (None, db,
          pg\<lparr>deposits := map (\<lambda>x. if id' x = id' d then x\<lparr>status := pending\<rparr> else x)
                              (deposits pg)\<rparr>)
    else (Some e, db, pg))"
  by (cases "status d") (simp_all add: onClick_def)

lemma click_step:
  assumes "i < length (deposits pg)"
  shows "length (deposits (page_of (click None now i db pg))) = length (deposits pg)"
    and "id' (deposits (page_of (click None now i db pg)) ! i) = id' (deposits pg ! i)"
    and "status (deposits (page_of (click None now i db pg)) ! i) =
         cycle (status (deposits pg ! i))"
    and "\<And>r. r \<in> set (challenge_deposits (store_of (click None now i db pg))) \<Longrightarrow>
          id' r = id' (deposits pg ! i) \<Longrightarrow>
          status r = cycle (status (deposits pg ! i)) \<and>
          completed_at r =
            (if cycle (status (deposits pg ! i)) = completed then Some now else None)"
  using assms by (auto simp: click_def onClick_ok)

lemma set_map_if_cases:
  assumes "x \<in> set (map (\<lambda>d. if P d then f d else d) xs)"
  obtains d where "d \<in> set xs" "P d" "x = f d" | "x \<in> set xs" "\<not> P x"
  using assms by (induction xs) (auto split: if_splits)


lemma updateDepositStatus_row_status:
  "\<forall>r \<in> set (challenge_deposits (store_of (updateDepositStatus None now depositId st db pg))).
     id' r = depositId \<longrightarrow>
     status r = st \<and> completed_at r = (if st = completed then Some now else None)"
proof (intro ballI impI)
  fix x
  assume "x \<in> set (challenge_deposits
                     (store_of (updateDepositStatus None now depositId st db pg)))"
    and eq: "id' x = depositId"
  then have "x \<in> set (map (\<lambda>r. if id' r = depositId
                   then r\<lparr>status := st,
                          completed_at := (if st = completed then Some now else None)\<rparr>
                   else r) (challenge_deposits db))"
    by (simp add: updateDepositStatus_ok)
  then show "status x = st \<and> completed_at x = (if st = completed then Some now else None)"
    by (rule set_map_if_cases) (use eq in simp_all)
qed

lemma onClick_row_status:
  "\<forall>r \<in> set (challenge_deposits (store_of (onClick None now d db pg))).
     id' r = id' d \<longrightarrow>
     status r = cycle (status d) \<and>
     completed_at r = (if cycle (status d) = completed then Some now else None)"
proof (intro ballI impI)
  fix x
  assume "x \<in> set (challenge_deposits (store_of (onClick None now d db pg)))"
    and eq: "id' x = id' d"
  then have "x \<in> set (map (\<lambda>r. if id' r = id' d
                   then r\<lparr>status := cycle (status d),
                          completed_at :=
                            (if cycle (status d) = completed then Some now else None)\<rparr>
                   else r) (challenge_deposits db))"
    by (simp add: onClick_ok)
  then show "status x = cycle (status d) \<and>
     completed_at x = (if cycle (status d) = completed then Some now else None)"
    by (rule set_map_if_cases) (use eq in simp_all)
qed







text \<open>
  C6. An obligation that the page shows as pending, clicked three times with every store
  call answered, is completed with the time of the first click, then skipped with no
  completion time, then pending again with no completion time, on the page and in every
  row of the store with its id.
\<close>

theorem three_clicks_return_to_pending:
  assumes "i < length (deposits pg)" and "status (deposits pg ! i) = pending"
  shows "status (deposits (snd (click_times [t1] i db pg)) ! i) = completed \<and>
         (\<forall>r \<in> set (challenge_deposits (fst (click_times [t1] i db pg))).
            id' r = id' (deposits pg ! i) \<longrightarrow>
            status r = completed \<and> completed_at r = Some t1) \<and>
         status (deposits (snd (click_times [t1, t2] i db pg)) ! i) = skipped \<and>
         (\<forall>r \<in> set (challenge_deposits (fst (click_times [t1, t2] i db pg))).
            id' r = id' (deposits pg ! i) \<longrightarrow> status r = skipped \<and> completed_at r = None) \<and>
         status (deposits (snd (click_times [t1, t2, t3] i db pg)) ! i) = pending \<and>
         (\<forall>r \<in> set (challenge_deposits (fst (click_times [t1, t2, t3] i db pg))).
            id' r = id' (deposits pg ! i) \<longrightarrow> status r = pending \<and> completed_at r = None)"
proof -
  define w1 where "w1 = click None t1 i db pg"
  define w2 where "w2 = click None t2 i (store_of w1) (page_of w1)"
  define w3 where "w3 = click None t3 i (store_of w2) (page_of w2)"
  have l1: "i < length (deposits (page_of w1))"
    and id1: "id' (deposits (page_of w1) ! i) = id' (deposits pg ! i)"
    and s1: "status (deposits (page_of w1) ! i) = completed"
    using click_step(1-3) [OF assms(1), of t1 db] assms by (simp_all add: w1_def cycle_def)
  have r1: "status r = completed \<and> completed_at r = Some t1"
    if "r \<in> set (challenge_deposits (store_of w1))" "id' r = id' (deposits pg ! i)" for r
    using click_step(4) [OF assms(1), of r t1 db] that assms(2) by (simp add: w1_def cycle_def)
  have l2: "i < length (deposits (page_of w2))"
    and id2: "id' (deposits (page_of w2) ! i) = id' (deposits pg ! i)"
    and s2: "status (deposits (page_of w2) ! i) = skipped"
    using click_step(1-3) [OF l1, of t2 "store_of w1"] l1 s1 id1
    by (simp_all add: w2_def cycle_def)
  have r2: "status r = skipped \<and> completed_at r = None"
    if "r \<in> set (challenge_deposits (store_of w2))" "id' r = id' (deposits pg ! i)" for r
    using click_step(4) [OF l1, of r t2 "store_of w1"] that s1 id1
    by (simp add: w2_def cycle_def)
  have s3: "status (deposits (page_of w3) ! i) = pending"
    using click_step(3) [OF l2, of t3 "store_of w2"] s2 by (simp add: w3_def cycle_def)
  have r3: "status r = pending \<and> completed_at r = None"
    if "r \<in> set (challenge_deposits (store_of w3))" "id' r = id' (deposits pg ! i)" for r
    using click_step(4) [OF l2, of r t3 "store_of w2"] that s2 id2
    by (simp add: w3_def cycle_def)
  have c1: "click_times [t1] i db pg = (store_of w1, page_of w1)"
    and c2: "click_times [t1, t2] i db pg = (store_of w2, page_of w2)"
    and c3: "click_times [t1, t2, t3] i db pg = (store_of w3, page_of w3)"
    by (simp_all add: w1_def w2_def w3_def Let_def)
  show ?thesis
    unfolding c1 c2 c3 using s1 s2 s3 r1 r2 r3 by simp
qed

theorem three_clicks_return_to_pending_witness:
  "status (deposits (snd (click_times [''t1'', ''t2'', ''t3''] 1 example_store example_page))
     ! 1) = pending \<and>
   map completed_at (challenge_deposits (fst (click_times [''t1'', ''t2'', ''t3''] 1
     example_store example_page))) = [Some ''2026-01-01T00:00:00.000Z'', None, None] \<and>
   map completed_at (challenge_deposits (fst (click_times [''t1''] 1 example_store
     example_page))) = [Some ''2026-01-01T00:00:00.000Z'', Some ''t1'', None]"
  using three_clicks_return_to_pending
    [of 1 example_page "''t1''" example_store "''t2''" "''t3''"]
  by (simp add: example_page_def example_store_def click_def onClick_def
      updateDepositStatus_def update_challenge_deposits_def Let_def)

subsection \<open>The completion time\<close>

lemma inv_update:
  assumes "completed_at_inv db"
  shows "completed_at_inv
          (db\<lparr>challenge_deposits :=
               map (\<lambda>r. if id' r = x
                         then r\<lparr>status := st,
                                completed_at := (if st = completed then Some now else None)\<rparr>
                         else r)
                   (challenge_deposits db)\<rparr>)"
  using assms by (auto simp: completed_at_inv_def list_all_iff)

lemma inv_updateDepositStatus:
  "completed_at_inv db \<Longrightarrow>
   completed_at_inv (store_of (updateDepositStatus fault now x st db pg))"
  by (cases fault) (simp_all add: updateDepositStatus_ok inv_update)

lemma inv_onClick:
  "completed_at_inv db \<Longrightarrow> completed_at_inv (store_of (onClick fault now d db pg))"
  by (cases fault) (simp_all add: onClick_ok onClick_fault inv_update)

lemma inv_click:
  "completed_at_inv db \<Longrightarrow> completed_at_inv (store_of (click fault now i db pg))"
  by (simp add: click_def inv_onClick)

lemma inserted_rows_pending:
  "list_all (\<lambda>r. status r = pending \<and> completed_at r = None)
     (inserted_rows new_ids (depositsToInsert cid t))"
  by (auto simp: inserted_rows_def depositsToInsert_def list_all_iff in_set_enumerate_eq
      split_def)

lemma inserted_rows_values:
  "map deposit_value (inserted_rows new_ids (depositsToInsert cid t)) = depositValues t"
  by (rule nth_equalityI)
    (simp_all add: inserted_rows_def depositsToInsert_def split_def nth_enumerate_eq)

lemma createChallenge_rows:
  "challenge_deposits (store_of (createChallenge f1 nid f2 nids f3 f4 uid t db pg)) =
     (if caught (createChallenge f1 nid f2 nids f3 f4 uid t db pg) = None
      then challenge_deposits db @ inserted_rows nids (depositsToInsert nid t)
      else challenge_deposits db)"
  by (auto simp: createChallenge_def insert_challenge_40k_def insert_challenge_deposits_def
      Let_def split: option.splits sum.splits if_splits)

lemma inv_createChallenge:
  assumes "completed_at_inv db"
  shows "completed_at_inv (store_of (createChallenge f1 nid f2 nids f3 f4 uid t db pg))"
proof -
  have "list_all (\<lambda>r. (completed_at r \<noteq> None) = (status r = completed))
          (inserted_rows nids (depositsToInsert nid t))"
    using inserted_rows_pending [of nids nid t] by (auto simp: list_all_iff)
  then show ?thesis
    using assms by (simp add: completed_at_inv_def createChallenge_rows)
qed

lemma createChallenge_new_rows:
  "list_all (\<lambda>r. status r = pending \<and> completed_at r = None)
     (drop (length (challenge_deposits db))
        (challenge_deposits (store_of (createChallenge f1 nid f2 nids f3 f4 uid t db pg))))"
  by (simp add: createChallenge_rows inserted_rows_pending)

text \<open>
  C5. In the store, an obligation has a completion time exactly when its status is
  completed: this holds of the empty store, and \<^verbatim>\<open>createChallenge\<close>,
  \<^verbatim>\<open>updateDepositStatus\<close> and a click keep it, whatever the store answers. The rows that
  \<^verbatim>\<open>createChallenge\<close> adds are pending with no completion time; a successful update to
  completed stores the current time, a successful update to another status stores none,
  and so does the reset of a click on a skipped obligation.
\<close>

theorem completed_at_iff_completed:
  "completed_at_inv \<lparr>challenge_40k = [], challenge_deposits = []\<rparr> \<and>
   list_all (\<lambda>r. status r = pending \<and> completed_at r = None)
     (drop (length (challenge_deposits db))
        (challenge_deposits (store_of (createChallenge f1 nid f2 nids f3 f4 uid t db pg)))) \<and>
   (completed_at_inv db \<longrightarrow>
      completed_at_inv (store_of (createChallenge f1 nid f2 nids f3 f4 uid t db pg)) \<and>
      completed_at_inv (store_of (updateDepositStatus fault now depositId st db pg)) \<and>
      completed_at_inv (store_of (onClick fault now d db pg)) \<and>
      completed_at_inv (store_of (click fault now i db pg))) \<and>
   (\<forall>r \<in> set (challenge_deposits
                 (store_of (updateDepositStatus None now depositId st db pg))).
      id' r = depositId \<longrightarrow>
      status r = st \<and> completed_at r = (if st = completed then Some now else None)) \<and>
   (\<forall>r \<in> set (challenge_deposits (store_of (onClick None now d db pg))).
      id' r = id' d \<longrightarrow>
      status r = cycle (status d) \<and>
      completed_at r = (if cycle (status d) = completed then Some now else None))"
proof -
  have init: "completed_at_inv \<lparr>challenge_40k = [], challenge_deposits = []\<rparr>"
    by (simp add: completed_at_inv_def)
  have step: "completed_at_inv db \<longrightarrow>
      completed_at_inv (store_of (createChallenge f1 nid f2 nids f3 f4 uid t db pg)) \<and>
      completed_at_inv (store_of (updateDepositStatus fault now depositId st db pg)) \<and>
      completed_at_inv (store_of (onClick fault now d db pg)) \<and>
      completed_at_inv (store_of (click fault now i db pg))"
    by (intro impI conjI)
      (erule inv_createChallenge inv_updateDepositStatus inv_onClick inv_click)+
  show ?thesis
    by (intro conjI)
      (fact init createChallenge_new_rows step updateDepositStatus_row_status
        onClick_row_status)+
qed

theorem completed_at_iff_completed_witness:
  "completed_at_inv example_store \<and>
   completed_at_inv (store_of (updateDepositStatus None ''t1'' ''d2'' completed
                       example_store example_page)) \<and>
   map completed_at (challenge_deposits (store_of (updateDepositStatus None ''t1'' ''d2''
                       completed example_store example_page))) =
     [Some ''2026-01-01T00:00:00.000Z'', Some ''t1'', None] \<and>
   map completed_at (challenge_deposits (store_of (updateDepositStatus None ''t1'' ''d1''
                       skipped example_store example_page))) =
     [None, None, None]"
proof -
  have inv: "completed_at_inv example_store"
    by (simp add: completed_at_inv_def example_store_def)
  have "completed_at_inv (store_of (updateDepositStatus None ''t1'' ''d2'' completed
                       example_store example_page))"
    using completed_at_iff_completed [of example_store None "''c2''" None "\<lambda>k. ''n''" None
        None "''u1''" 40000 example_page None "''t1''" "''d2''" completed] inv
    by blast
  then show ?thesis
    using inv
    by (simp add: updateDepositStatus_def update_challenge_deposits_def example_store_def)
qed

subsection \<open>The accumulated amount under transitions\<close>

lemma completedValue_mark_completed:
  assumes "\<And>d. d \<in> set ds \<Longrightarrow> 0 \<le> deposit_value d"
  shows "completedValue ds \<le>
         completedValue (map (\<lambda>d. if id' d = depositId then d\<lparr>status := completed\<rparr> else d) ds)"
  unfolding completedValue_sum_if map_map
  by (rule sum_list_mono) (use assms in auto)

lemma completedValue_complete_then_skip:
  assumes "\<And>d. d \<in> set ds \<Longrightarrow> id' d = depositId \<Longrightarrow> status d = pending"
  shows "completedValue
           (map ((\<lambda>d. if id' d = depositId then d\<lparr>status := skipped\<rparr> else d) \<circ>
                 (\<lambda>d. if id' d = depositId then d\<lparr>status := completed\<rparr> else d)) ds) =
         completedValue ds"
  unfolding completedValue_sum_if map_map
  by (rule arg_cong [where f = sum_list], rule map_cong) (use assms in auto)

lemma completedValue_skip_pending:
  assumes "\<And>d. d \<in> set ds \<Longrightarrow> id' d = depositId \<Longrightarrow> status d = pending"
  shows "completedValue
           (map (\<lambda>d. if id' d = depositId then d\<lparr>status := skipped\<rparr> else d) ds) =
         completedValue ds"
  unfolding completedValue_sum_if map_map
  by (rule arg_cong [where f = sum_list], rule map_cong) (use assms in auto)

text \<open>
  C7. When no deposit value on the page is negative, \<^verbatim>\<open>updateDepositStatus\<close> with the
  status completed never decreases the accumulated amount, whatever the store answers.
  When the ids on the page are distinct and an obligation is pending, marking it completed
  and then, with the second store call answered, skipped gives the accumulated amount that
  the page had before the two transitions.
\<close>

theorem accumulated_monotone_and_restored:
  "((\<forall>d \<in> set (deposits pg). 0 \<le> deposit_value d) \<longrightarrow>
     completedValue (deposits pg) \<le>
     completedValue
       (deposits (page_of (updateDepositStatus fault now depositId completed db pg)))) \<and>
   (distinct (map id' (deposits pg)) \<and> i < length (deposits pg) \<and>
    status (deposits pg ! i) = pending \<longrightarrow>
     completedValue
       (deposits (page_of
          (updateDepositStatus None now2 (id' (deposits pg ! i)) skipped
             (store_of (updateDepositStatus fault1 now1 (id' (deposits pg ! i)) completed
                          db pg))
             (page_of (updateDepositStatus fault1 now1 (id' (deposits pg ! i)) completed
                         db pg))))) =
     completedValue (deposits pg))"
proof (intro conjI impI)
  assume "\<forall>d \<in> set (deposits pg). 0 \<le> deposit_value d"
  then show "completedValue (deposits pg) \<le>
     completedValue
       (deposits (page_of (updateDepositStatus fault now depositId completed db pg)))"
    by (cases fault) (auto simp: updateDepositStatus_ok intro: completedValue_mark_completed)
next
  assume h: "distinct (map id' (deposits pg)) \<and> i < length (deposits pg) \<and>
    status (deposits pg ! i) = pending"
  have only: "status d = pending"
    if "d \<in> set (deposits pg)" "id' d = id' (deposits pg ! i)" for d
  proof -
    have "inj_on id' (set (deposits pg))" using h by (simp add: distinct_map)
    moreover have "deposits pg ! i \<in> set (deposits pg)" using h by simp
    ultimately have "d = deposits pg ! i" using that by (auto dest: inj_onD)
    then show ?thesis using h by simp
  qed
  show "completedValue
       (deposits (page_of
          (updateDepositStatus None now2 (id' (deposits pg ! i)) skipped
             (store_of (updateDepositStatus fault1 now1 (id' (deposits pg ! i)) completed
                          db pg))
             (page_of (updateDepositStatus fault1 now1 (id' (deposits pg ! i)) completed
                         db pg))))) =
     completedValue (deposits pg)"
    by (cases fault1)
      (simp_all add: updateDepositStatus_ok completedValue_complete_then_skip only
        completedValue_skip_pending)
qed

text \<open>On the example page: 1 accumulated, 3 once \<open>d2\<close> is completed, 1 once it is skipped.\<close>

theorem accumulated_monotone_and_restored_witness:
  "completedValue (deposits example_page) = 1 \<and>
   completedValue (deposits (page_of (updateDepositStatus None ''t1'' ''d2'' completed
      example_store example_page))) = 3 \<and>
   completedValue
       (deposits (page_of
          (updateDepositStatus None ''t2'' ''d2'' skipped
             (store_of (updateDepositStatus None ''t1'' ''d2'' completed example_store
                          example_page))
             (page_of (updateDepositStatus None ''t1'' ''d2'' completed example_store
                         example_page))))) = 1"
proof -
  have h1: "\<forall>d \<in> set (deposits example_page). 0 \<le> deposit_value d"
    by (simp add: example_page_def)
  have h2: "distinct (map id' (deposits example_page)) \<and> 1 < length (deposits example_page) \<and>
    status (deposits example_page ! 1) = pending"
    by (simp add: example_page_def)
  have id2: "id' (deposits example_page ! 1) = ''d2''"
    by (simp add: example_page_def)
  have v0: "completedValue (deposits example_page) = 1"
    by (simp add: example_page_def completedValue_def)
  have v1: "completedValue (deposits (page_of (updateDepositStatus None ''t1'' ''d2'' completed
      example_store example_page))) = 3"
    by (simp add: example_page_def completedValue_def updateDepositStatus_def
        update_challenge_deposits_def)
  note inst = accumulated_monotone_and_restored [of example_page None "''t1''" "''d2''"
      example_store 1 "''t2''" None "''t1''", unfolded id2]
  from inst h1 h2 v0 v1 show ?thesis by simp
qed

section \<open>Creating a second challenge\<close>

lemma createChallenge_duplicate_outcome:
  assumes "uid \<in> set (map user_id (challenge_40k db))"
  shows "createChallenge f1 nid f2 nids f3 f4 uid t db pg =
           (Some (case f1 of Some e \<Rightarrow> e | None \<Rightarrow> unique_violation), db,
            pg\<lparr>loading := False\<rparr>)"
  using assms by (cases f1) (simp_all add: createChallenge_def insert_challenge_40k_def)

text \<open>
  C8. When the store already holds a challenge of the user, \<^verbatim>\<open>createChallenge\<close> ends
  in its \<^verbatim>\<open>catch\<close> block: with the error of the uniqueness constraint on
  \<^verbatim>\<open>user_id\<close> when the store is reached, with the fault otherwise. The store is
  unchanged, so no obligation is inserted and the existing challenge and its obligations
  are as before; the page keeps its deposits and only stops loading.
\<close>

theorem createChallenge_duplicate_fails:
  assumes "uid \<in> set (map user_id (challenge_40k db))"
  shows "caught (createChallenge f1 nid f2 nids f3 f4 uid t db pg) \<noteq> None \<and>
         caught (createChallenge None nid f2 nids f3 f4 uid t db pg) = Some unique_violation \<and>
         store_of (createChallenge f1 nid f2 nids f3 f4 uid t db pg) = db \<and>
         page_of (createChallenge f1 nid f2 nids f3 f4 uid t db pg) = pg\<lparr>loading := False\<rparr> \<and>
         deposits (page_of (createChallenge f1 nid f2 nids f3 f4 uid t db pg)) = deposits pg"
  by (simp add: createChallenge_duplicate_outcome [OF assms])

theorem createChallenge_duplicate_fails_witness:
  "caught (createChallenge None ''c2'' None (\<lambda>k. ''n'' @ decimal k) None None ''u1''
             40200 example_store example_page) = Some unique_violation \<and>
   store_of (createChallenge None ''c2'' None (\<lambda>k. ''n'' @ decimal k) None None ''u1''
             40200 example_store example_page) = example_store \<and>
   deposits (page_of (createChallenge None ''c2'' None (\<lambda>k. ''n'' @ decimal k) None
             None ''u1'' 40200 example_store example_page)) = deposits example_page"
proof -
  have "''u1'' \<in> set (map user_id (challenge_40k example_store))"
    by (simp add: example_store_def)
  from createChallenge_duplicate_fails [OF this] show ?thesis by simp
qed

end
